theory Spec2Isabelle
  imports Main
begin

section \<open>Python values\<close>

text \<open>
  The event subsystem of \<^verbatim>\<open>ooodev\<close> handles values it never looks into
  (\<^verbatim>\<open>source: Any\<close>, \<^verbatim>\<open>event_data: Any\<close>, \<^verbatim>\<open>message: Any\<close>).
  A value is \<^verbatim>\<open>None\<close>, a bool, an int, a str, or a reference to any other
  object. Two references are the same object exactly when they are equal, so Python's
  \<^verbatim>\<open>is\<close> on objects is equality of references. A \<^verbatim>\<open>str\<close> is a list of
  \<^typ>\<open>char\<close>, which covers the code points below 256.
\<close>

type_synonym ref = nat

datatype pyval =
    PyNone
  | PyBool bool
  | PyInt int
  | PyStr string
  | PyRef ref

text \<open>
  Exceptions as values: the \<^verbatim>\<open>AttributeError\<close> of a missing attribute (with the
  attribute's name), and any other exception, given by its class name and its
  \<^verbatim>\<open>args\<close> tuple.
\<close>

datatype error =
    AttributeError string
  | Raised string "pyval list"

section \<open>\<^verbatim>\<open>ooodev/events/args/event_args.py\<close>: class EventArgs\<close>

text \<open>
  The instance attributes of an \<^verbatim>\<open>EventArgs\<close> object. \<^verbatim>\<open>__init__\<close> assigns
  \<^verbatim>\<open>_source\<close> and \<^verbatim>\<open>_event_name\<close> only; \<^verbatim>\<open>_event_data\<close> exists on the
  instance from the first write of the \<^verbatim>\<open>event_data\<close> property on, so that field
  is an option and \<open>None\<close> means that the instance has no such attribute.
\<close>

record EventArgs =
  attr_source :: pyval
  attr_event_name :: string
  attr_event_data :: "pyval option"

definition EventArgs_init :: "pyval \<Rightarrow> EventArgs" where
  "EventArgs_init src =
     \<lparr> attr_source = src, attr_event_name = [], attr_event_data = None \<rparr>"

definition source :: "'a EventArgs_scheme \<Rightarrow> pyval" where
  "source self = attr_source self"

definition set_source :: "pyval \<Rightarrow> 'a EventArgs_scheme \<Rightarrow> 'a EventArgs_scheme" where
  "set_source v self = self\<lparr> attr_source := v \<rparr>"

definition event_name :: "'a EventArgs_scheme \<Rightarrow> string" where
  "event_name self = attr_event_name self"

definition set_event_name :: "string \<Rightarrow> 'a EventArgs_scheme \<Rightarrow> 'a EventArgs_scheme" where
  "set_event_name v self = self\<lparr> attr_event_name := v \<rparr>"

text \<open>Reading \<^verbatim>\<open>self._event_data\<close>: raises when the attribute was never assigned.\<close>

definition getattr_event_data :: "'a EventArgs_scheme \<Rightarrow> error + pyval" where
  "getattr_event_data self =
     (case attr_event_data self of
        None \<Rightarrow> Inl (AttributeError ''_event_data'')
      | Some v \<Rightarrow> Inr v)"

text \<open>
  The getter of the property: \<^verbatim>\<open>try: return self._event_data\<close>,
  \<^verbatim>\<open>except AttributeError: return None\<close>. Any other exception would pass through.
\<close>

definition event_data :: "'a EventArgs_scheme \<Rightarrow> error + pyval" where
  "event_data self =
     (case getattr_event_data self of
        Inr v \<Rightarrow> Inr v
      | Inl (AttributeError _) \<Rightarrow> Inr PyNone
      | Inl e \<Rightarrow> Inl e)"

definition set_event_data :: "pyval \<Rightarrow> 'a EventArgs_scheme \<Rightarrow> 'a EventArgs_scheme" where
  "set_event_data v self = self\<lparr> attr_event_data := Some v \<rparr>"

text \<open>
  The writes a caller can make on an object through its properties, and a sequence of
  them applied in order.
\<close>

datatype prop_write = SetSource pyval | SetEventName string | SetEventData pyval

fun apply_write :: "prop_write \<Rightarrow> 'a EventArgs_scheme \<Rightarrow> 'a EventArgs_scheme" where
  "apply_write (SetSource v) self = set_source v self"
| "apply_write (SetEventName v) self = set_event_name v self"
| "apply_write (SetEventData v) self = set_event_data v self"

fun apply_writes :: "prop_write list \<Rightarrow> 'a EventArgs_scheme \<Rightarrow> 'a EventArgs_scheme" where
  "apply_writes [] self = self"
| "apply_writes (x # xs) self = apply_writes xs (apply_write x self)"

fun writes_event_data :: "prop_write \<Rightarrow> bool" where
  "writes_event_data (SetEventData _) = True"
| "writes_event_data _ = False"

section \<open>\<^verbatim>\<open>repr\<close> of the values\<close>

text \<open>
  \<^verbatim>\<open>CancelEventError.__str__\<close> calls Python's \<^verbatim>\<open>repr\<close>. For a \<^verbatim>\<open>str\<close>
  that is the quoted literal: in single quotes, or in double quotes when the string
  holds a single quote and no double quote; the quote character and the backslash are
  escaped with a backslash, tab, newline and carriage return are written
  \<^verbatim>\<open>\t \n \r\<close>, and every other character that is not printable is written
  \<^verbatim>\<open>\xhh\<close> with two lower-case hexadecimal digits. Below 256 the characters
  that are not printable are the control characters \<open>0x00..0x1F\<close> and
  \<open>0x7F..0x9F\<close>, the no-break space \<open>0xA0\<close> and the soft hyphen \<open>0xAD\<close>.
\<close>

definition hexdigit :: "nat \<Rightarrow> char" where
  "hexdigit n = (if n < 10 then char_of (48 + n) else char_of (87 + n))"

definition hex_escape :: "char \<Rightarrow> string" where
  "hex_escape ch =
     [CHR 0x5C, CHR ''x'', hexdigit (of_char ch div 16), hexdigit (of_char ch mod 16)]"

definition isprintable :: "char \<Rightarrow> bool" where
  "isprintable ch = ((0xA1::nat) \<le> of_char ch \<and> of_char ch \<noteq> (0xAD::nat))"

definition repr_char :: "char \<Rightarrow> char \<Rightarrow> string" where
  "repr_char quote ch =
     (if ch = quote \<or> ch = CHR 0x5C then [CHR 0x5C, ch]
      else if ch = CHR 0x09 then [CHR 0x5C, CHR ''t'']
      else if ch = CHR 0x0A then [CHR 0x5C, CHR ''n'']
      else if ch = CHR 0x0D then [CHR 0x5C, CHR ''r'']
      else if (of_char ch :: nat) < 0x20 \<or> ch = CHR 0x7F then hex_escape ch
      else if (of_char ch :: nat) < 0x7F then [ch]
      else if \<not> isprintable ch then hex_escape ch
      else [ch])"

definition str_repr :: "string \<Rightarrow> string" where
  "str_repr s =
     (let quote = (if CHR 0x27 \<in> set s \<and> CHR 0x22 \<notin> set s then CHR 0x22 else CHR 0x27)
      in quote # concat (map (repr_char quote) s) @ [quote])"

fun nat_repr :: "nat \<Rightarrow> string" where
  "nat_repr n =
     (if n < 10 then [char_of (48 + n)]
      else nat_repr (n div 10) @ [char_of (48 + n mod 10)])"

declare nat_repr.simps [simp del]

definition int_repr :: "int \<Rightarrow> string" where
  "int_repr i = (if i < 0 then CHR ''-'' # nat_repr (nat (- i)) else nat_repr (nat i))"

text \<open>
  The \<^verbatim>\<open>repr\<close> of any other object is what its class makes of it, so it is a
  parameter: \<open>obj_repr r\<close> is the \<^verbatim>\<open>repr\<close> of the object behind the reference \<open>r\<close>.
\<close>

fun py_repr :: "(ref \<Rightarrow> string) \<Rightarrow> pyval \<Rightarrow> string" where
  "py_repr obj_repr PyNone = ''None''"
| "py_repr obj_repr (PyBool b) = (if b then ''True'' else ''False'')"
| "py_repr obj_repr (PyInt i) = int_repr i"
| "py_repr obj_repr (PyStr s) = str_repr s"
| "py_repr obj_repr (PyRef r) = obj_repr r"

section \<open>\<^verbatim>\<open>ooodev/exceptions/ex.py\<close>: class CancelEventError\<close>

text \<open>
  The exception object is its \<^verbatim>\<open>args\<close> tuple, which \<^verbatim>\<open>__init__\<close> hands to
  \<^verbatim>\<open>Exception.__init__\<close> as \<^verbatim>\<open>(event_args, message, *args)\<close>: the first
  element is the event object, the elements from index 1 on are values.
\<close>

record 'a CancelEventError =
  args_0 :: "'a EventArgs_scheme"
  args_from_1 :: "pyval list"

text \<open>
  \<^verbatim>\<open>if message is None: message = f"Event '{event_args.event_name}' is canceled!"\<close>,
  then \<^verbatim>\<open>super().__init__(event_args, message, *args)\<close>.
\<close>

definition CancelEventError_init ::
  "'a EventArgs_scheme \<Rightarrow> pyval \<Rightarrow> pyval list \<Rightarrow> 'a CancelEventError"
where
  "CancelEventError_init event_args message args =
     (let message' =
        (if message = PyNone
         then PyStr (''Event '' @ [CHR 0x27] @ event_name event_args @ [CHR 0x27] @
                     '' is canceled!'')
         else message)
      in \<lparr> args_0 = event_args, args_from_1 = message' # args \<rparr>)"

text \<open>\<^verbatim>\<open>self.args[1]\<close>: an \<^verbatim>\<open>IndexError\<close> on a tuple that has no index 1.\<close>

definition args_1 :: "'a CancelEventError \<Rightarrow> error + pyval" where
  "args_1 self =
     (case args_from_1 self of
        [] \<Rightarrow> Inl (Raised ''IndexError'' [PyStr ''tuple index out of range''])
      | m # _ \<Rightarrow> Inr m)"

text \<open>\<^verbatim>\<open>__str__\<close>: \<^verbatim>\<open>return repr(self.args[1])\<close>.\<close>

definition CancelEventError_str ::
  "(ref \<Rightarrow> string) \<Rightarrow> 'a CancelEventError \<Rightarrow> error + string"
where
  "CancelEventError_str obj_repr self =
     (case args_1 self of
        Inl e \<Rightarrow> Inl e
      | Inr m \<Rightarrow> Inr (py_repr obj_repr m))"

section \<open>CancelEventArgs\<close>

text \<open>
  Modelled from the spec: the class \<^verbatim>\<open>CancelEventArgs\<close> of
  \<^verbatim>\<open>ooodev/events/args/cancel_event_args.py\<close>, which the tests import and which
  is not among the sources. The spec: it extends \<^verbatim>\<open>EventArgs\<close> and "adds a
  boolean \<^verbatim>\<open>cancel\<close> flag, initialized false, settable by any subscriber during
  dispatch"; "\<^verbatim>\<open>cancel\<close> (cancel-variant only) is a read/write boolean, defaults
  false".
\<close>

record CancelEventArgs = EventArgs +
  attr_cancel :: bool

text \<open>
  Modelled from the spec: the constructor of the missing class \<^verbatim>\<open>CancelEventArgs\<close>,
  which takes \<^verbatim>\<open>source\<close> as \<^verbatim>\<open>EventArgs\<close> does and starts with
  \<^verbatim>\<open>cancel\<close> false.
\<close>

definition CancelEventArgs_init :: "pyval \<Rightarrow> CancelEventArgs" where
  "CancelEventArgs_init src =
     \<lparr> attr_source = src, attr_event_name = [], attr_event_data = None,
       attr_cancel = False \<rparr>"

text \<open>
  Modelled from the spec: the getter of the \<^verbatim>\<open>cancel\<close> property of the missing
  class \<^verbatim>\<open>CancelEventArgs\<close>.
\<close>

definition cancel :: "'a CancelEventArgs_scheme \<Rightarrow> bool" where
  "cancel self = attr_cancel self"

text \<open>
  Modelled from the spec: the setter of the \<^verbatim>\<open>cancel\<close> property of the missing
  class \<^verbatim>\<open>CancelEventArgs\<close>; it stores either value.
\<close>

definition set_cancel :: "bool \<Rightarrow> 'a CancelEventArgs_scheme \<Rightarrow> 'a CancelEventArgs_scheme" where
  "set_cancel v self = self\<lparr> attr_cancel := v \<rparr>"

section \<open>Subscribers\<close>

text \<open>
  A subscriber is a callable object, known to the registry by its reference. What a
  call of it does is a function of the two arguments it is passed, \<^verbatim>\<open>(source, args)\<close>,
  and of the rest of the program's state \<open>'w\<close>: it returns or raises, and it leaves the
  event object and the state as it made them. The event object is one mutable object
  shared by the caller and all subscribers, so the model threads its state through the
  calls. A subscriber does not register or remove subscribers while a dispatch runs.
\<close>

type_synonym ('a, 'w) callback =
  "pyval \<Rightarrow> 'a EventArgs_scheme \<Rightarrow> 'w \<Rightarrow> error option \<times> 'a EventArgs_scheme \<times> 'w"

text \<open>
  What a dispatch did: the calls it made, in order (which callable, the
  \<^verbatim>\<open>source\<close> argument, the event object as it was when passed), the exception
  that came out of it if any, and the event object and the state afterwards.
\<close>

type_synonym 'a call = "ref \<times> pyval \<times> 'a EventArgs_scheme"

type_synonym ('a, 'w) outcome =
  "'a call list \<times> error option \<times> 'a EventArgs_scheme \<times> 'w"

definition calls :: "('a, 'w) outcome \<Rightarrow> 'a call list" where
  "calls r = fst r"

definition raised :: "('a, 'w) outcome \<Rightarrow> error option" where
  "raised r = fst (snd r)"

definition args_after :: "('a, 'w) outcome \<Rightarrow> 'a EventArgs_scheme" where
  "args_after r = fst (snd (snd r))"

definition world_after :: "('a, 'w) outcome \<Rightarrow> 'w" where
  "world_after r = snd (snd (snd r))"

definition passed_args :: "'a call \<Rightarrow> 'a EventArgs_scheme" where
  "passed_args c = snd (snd c)"

section \<open>Events\<close>

text \<open>
  Modelled from the spec: the class \<^verbatim>\<open>Events\<close> of
  \<^verbatim>\<open>ooodev/events/lo_events.py\<close>, which the tests import and which is not among
  the sources. The spec: "State: mapping from event-name (string) to an ordered
  sequence of subscriber callbacks (each callback accepts \<^verbatim>\<open>(source, args)\<close>).
  Ordering is insertion order; duplicates are permitted".
\<close>

type_synonym Events = "string \<rightharpoonup> ref list"

text \<open>
  Modelled from the spec: the constructor of the missing class \<^verbatim>\<open>Events\<close>; a new
  registry has no subscriber for any name.
\<close>

definition Events_init :: Events where
  "Events_init = Map.empty"

text \<open>
  Modelled from the spec: the subscriber list of a name in the missing class
  \<^verbatim>\<open>Events\<close>; a name that is not in the mapping has no subscribers.
\<close>

definition subscribers :: "Events \<Rightarrow> string \<Rightarrow> ref list" where
  "subscribers self name = (case self name of None \<Rightarrow> [] | Some cs \<Rightarrow> cs)"

text \<open>
  Modelled from the spec: the method \<^verbatim>\<open>on\<close> of the missing class \<^verbatim>\<open>Events\<close>.
  The spec: "\<^verbatim>\<open>on(name, callback)\<close>: appends \<^verbatim>\<open>callback\<close> to the subscriber
  list for \<^verbatim>\<open>name\<close>, creating the list if absent. No error if \<^verbatim>\<open>callback\<close> is
  already registered for \<^verbatim>\<open>name\<close>".
\<close>

definition on :: "string \<Rightarrow> ref \<Rightarrow> Events \<Rightarrow> Events" where
  "on name callback self =
     (case self name of
        None \<Rightarrow> self(name \<mapsto> [callback])
      | Some cs \<Rightarrow> self(name \<mapsto> cs @ [callback]))"


text \<open>
  Modelled from the spec: the loop of the method \<^verbatim>\<open>trigger\<close> of the missing class
  \<^verbatim>\<open>Events\<close>. The spec: it "invokes each registered subscriber for \<^verbatim>\<open>name\<close>,
  in registration order, passing \<^verbatim>\<open>(args.source, args)\<close>. Dispatch is synchronous
  and single-threaded: each subscriber runs to completion before the next begins";
  "an exception raised inside a subscriber propagates synchronously out of
  \<^verbatim>\<open>trigger\<close>, aborting remaining subscriber invocations for that dispatch
  (fail-fast)". \<open>fns c\<close> is what a call of the callable \<open>c\<close> does.
\<close>

fun invoke_all ::
  "(ref \<Rightarrow> ('a, 'w) callback) \<Rightarrow> ref list \<Rightarrow> 'a EventArgs_scheme \<Rightarrow> 'w \<Rightarrow> ('a, 'w) outcome"
where
  "invoke_all fns [] args w = ([], None, args, w)"
| "invoke_all fns (c # cs) args w =
     (case fns c (source args) args w of
        (Some e, args', w') \<Rightarrow> ([(c, source args, args)], Some e, args', w')
      | (None, args', w') \<Rightarrow>
          (case invoke_all fns cs args' w' of
             (tr, rest) \<Rightarrow> ((c, source args, args) # tr, rest)))"

text \<open>
  Modelled from the spec: the method \<^verbatim>\<open>trigger\<close> of the missing class
  \<^verbatim>\<open>Events\<close>. The spec: "\<^verbatim>\<open>trigger(name, args)\<close>: sets
  \<^verbatim>\<open>args.event_name = name\<close>, then invokes each registered subscriber for
  \<^verbatim>\<open>name\<close>"; "If \<^verbatim>\<open>name\<close> has no subscribers, \<^verbatim>\<open>trigger\<close> is a no-op that
  still sets \<^verbatim>\<open>event_name\<close>".
\<close>

definition trigger ::
  "(ref \<Rightarrow> ('a, 'w) callback) \<Rightarrow> Events \<Rightarrow> string \<Rightarrow> 'a EventArgs_scheme \<Rightarrow> 'w \<Rightarrow> ('a, 'w) outcome"
where
  "trigger fns self name args w =
     invoke_all fns (subscribers self name) (set_event_name name args) w"


definition keeps_cancel :: "('a CancelEventArgs_ext, 'w) callback \<Rightarrow> bool" where
  "keeps_cancel f = (\<forall>s x v. cancel x \<longrightarrow> cancel (fst (snd (f s x v))))"

section \<open>Some subscribers\<close>

text \<open>
  Subscribers a client can register, each counting its calls in the state:
  \<^verbatim>\<open>def h(source, args): args.cancel = True\<close> (the subscriber of
  \<^verbatim>\<open>test_trigger_event_canceled\<close> does this),
  \<^verbatim>\<open>def h(source, args): args.cancel = False\<close>,
  \<^verbatim>\<open>def h(source, args): raise ValueError()\<close>,
  \<^verbatim>\<open>def h(source, args): args.event_name = "other"\<close>, and
  \<^verbatim>\<open>def h(source, args): pass\<close>.
\<close>

definition sets_cancel :: "('a CancelEventArgs_ext, nat) callback" where
  "sets_cancel src args w = (None, set_cancel True args, Suc w)"

definition clears_cancel :: "('a CancelEventArgs_ext, nat) callback" where
  "clears_cancel src args w = (None, set_cancel False args, Suc w)"

definition raises_ValueError :: "('a CancelEventArgs_ext, nat) callback" where
  "raises_ValueError src args w = (Some (Raised ''ValueError'' []), args, Suc w)"

definition renames_event :: "('a CancelEventArgs_ext, nat) callback" where
  "renames_event src args w = (None, set_event_name ''other'' args, Suc w)"

definition does_nothing :: "('a CancelEventArgs_ext, nat) callback" where
  "does_nothing src args w = (None, args, Suc w)"

text \<open>The callable objects behind the references \<open>10\<close>, \<open>20\<close>, \<open>30\<close> and \<open>40\<close>, and behind any other.\<close>

definition handlers :: "ref \<Rightarrow> ('a CancelEventArgs_ext, nat) callback" where
  "handlers r =
     (if r = 10 then sets_cancel
      else if r = 20 then clears_cancel
      else if r = 30 then raises_ValueError
      else if r = 40 then renames_event
      else does_nothing)"

section \<open>Properties of EventArgs\<close>

lemma apply_writes_keeps_event_data:
  "list_all (\<lambda>x. \<not> writes_event_data x) xs \<Longrightarrow>
   attr_event_data (apply_writes xs self) = attr_event_data self"
proof (induction xs arbitrary: self)
  case Nil
  show ?case by simp
next
  case (Cons x xs)
  from Cons.prems have x: "\<not> writes_event_data x"
    and xs: "list_all (\<lambda>x. \<not> writes_event_data x) xs" by simp_all
  from x have "attr_event_data (apply_write x self) = attr_event_data self"
    by (cases x) (simp_all add: set_source_def set_event_name_def)
  with Cons.IH [OF xs] show ?case by simp
qed

text \<open>
  C5. For every value \<open>src\<close>, \<^verbatim>\<open>EventArgs(src)\<close> is an object whose
  \<^verbatim>\<open>event_name\<close> is the empty string, whose \<^verbatim>\<open>event_data\<close> reads as
  \<^verbatim>\<open>None\<close> and whose \<^verbatim>\<open>source\<close> is \<open>src\<close> itself: for an object, the very
  reference that was passed in.
\<close>

theorem EventArgs_init_fields:
  "event_name (EventArgs_init src) = [] \<and>
   event_data (EventArgs_init src) = Inr PyNone \<and>
   source (EventArgs_init src) = src"
  by (simp add: EventArgs_init_def event_name_def event_data_def getattr_event_data_def
      source_def)

text \<open>
  C6. Reading \<^verbatim>\<open>event_data\<close> on an object that was constructed and whose
  \<^verbatim>\<open>event_data\<close> was never written since (whatever was written to its other
  properties) returns \<^verbatim>\<open>None\<close>, and not an error.
\<close>

theorem event_data_unwritten_is_None:
  "list_all (\<lambda>x. \<not> writes_event_data x) xs \<Longrightarrow>
   event_data (apply_writes xs (EventArgs_init src)) = Inr PyNone"
  using apply_writes_keeps_event_data [of xs "EventArgs_init src"]
  by (simp add: event_data_def getattr_event_data_def EventArgs_init_def)

theorem event_data_unwritten_is_None_witness:
  "list_all (\<lambda>x. \<not> writes_event_data x) [SetEventName ''save'', SetSource (PyRef 7)] \<and>
   event_data (apply_writes [SetEventName ''save'', SetSource (PyRef 7)]
     (EventArgs_init (PyInt 3))) = Inr PyNone"
  using event_data_unwritten_is_None
    [of "[SetEventName ''save'', SetSource (PyRef 7)]" "PyInt 3"]
  by simp

text \<open>
  C7. For every string \<open>s\<close>, the empty one included, and every \<open>src\<close>: after
  \<^verbatim>\<open>e = EventArgs(src); e.event_name = s\<close>, reading \<^verbatim>\<open>e.event_name\<close> gives
  exactly \<open>s\<close>.
\<close>

theorem event_name_roundtrip:
  "event_name (set_event_name s (EventArgs_init src)) = s"
  by (simp add: event_name_def set_event_name_def)

section \<open>The dispatch loop\<close>

lemma invoke_all_Cons_None:
  assumes "fns c (source a) a w = (None, a', w')"
  shows "calls (invoke_all fns (c # cs) a w) = (c, source a, a) # calls (invoke_all fns cs a' w')"
    and "raised (invoke_all fns (c # cs) a w) = raised (invoke_all fns cs a' w')"
    and "args_after (invoke_all fns (c # cs) a w) = args_after (invoke_all fns cs a' w')"
    and "world_after (invoke_all fns (c # cs) a w) = world_after (invoke_all fns cs a' w')"
  using assms
  by (simp_all add: calls_def raised_def args_after_def world_after_def split: prod.splits)

lemma invoke_all_Cons_Some:
  assumes "fns c (source a) a w = (Some e, a', w')"
  shows "invoke_all fns (c # cs) a w = ([(c, source a, a)], Some e, a', w')"
  using assms by simp

lemma invoke_all_Nil:
  "calls (invoke_all fns [] a w) = []" "raised (invoke_all fns [] a w) = None"
  "args_after (invoke_all fns [] a w) = a" "world_after (invoke_all fns [] a w) = w"
  by (simp_all add: calls_def raised_def args_after_def world_after_def)

declare invoke_all.simps(2) [simp del]

lemma step_cases:
  obtains (returns) a' w' where "fns c (source a) a w = (None, a', w')"
  | (raises) e a' w' where "fns c (source a) a w = (Some e, a', w')"
proof (cases "fns c (source a) a w")
  case (fields r a' w')
  then show ?thesis using that by (cases r) auto
qed


lemma invoke_all_returns:
  "raised (invoke_all fns cs a w) = None \<Longrightarrow> map fst (calls (invoke_all fns cs a w)) = cs"
proof (induction cs arbitrary: a w)
  case Nil
  show ?case by (simp add: calls_def)
next
  case (Cons c cs)
  show ?case
  proof (cases rule: step_cases [of fns c a w])
    case (returns a' w')
    then show ?thesis using Cons.IH [of a' w'] Cons.prems by (simp add: invoke_all_Cons_None)
  next
    case (raises e a' w')
    then show ?thesis using Cons.prems by (simp add: invoke_all_Cons_Some raised_def)
  qed
qed



lemma invoke_all_raise:
  "invoke_all fns pre a w = (tr, None, a1, w1) \<Longrightarrow>
   fns c (source a1) a1 w1 = (Some e, a2, w2) \<Longrightarrow>
   invoke_all fns (pre @ c # post) a w = (tr @ [(c, source a1, a1)], Some e, a2, w2)"
proof (induction pre arbitrary: a w tr)
  case Nil
  then show ?case by (simp add: invoke_all.simps(2))
next
  case (Cons d pre)
  show ?case
  proof (cases rule: step_cases [of fns d a w])
    case (returns a' w')
    obtain tr' where tr': "invoke_all fns pre a' w' = (tr', None, a1, w1)" and tr: "tr = (d, source a, a) # tr'"
      using Cons.prems(1) returns by (auto simp: invoke_all.simps(2) split: prod.splits)
    from Cons.IH [OF tr' Cons.prems(2)] returns tr show ?thesis
      by (simp add: invoke_all.simps(2))
  next
    case (raises e' a' w')
    then show ?thesis using Cons.prems(1) by (simp add: invoke_all.simps(2))
  qed
qed

lemma invoke_all_invariant:
  assumes keep: "\<And>c s x v. c \<in> set cs \<Longrightarrow> P x \<Longrightarrow> P (fst (snd (fns c s x v)))"
    and init: "P a"
  shows "P (args_after (invoke_all fns cs a w)) \<and>
         (\<forall>(c, s, x) \<in> set (calls (invoke_all fns cs a w)). P x)"
  using assms
proof (induction cs arbitrary: a w)
  case Nil
  then show ?case by (simp add: args_after_def calls_def)
next
  case (Cons c cs)
  have keep_c: "\<And>x v. P x \<Longrightarrow> P (fst (snd (fns c (source x) x v)))"
    using Cons.prems(1) by simp
  show ?case
  proof (cases rule: step_cases [of fns c a w])
    case (returns a' w')
    have "P a'" using keep_c [OF Cons.prems(2), of w] returns by simp
    then have "P (args_after (invoke_all fns cs a' w')) \<and>
          (\<forall>(c, s, x) \<in> set (calls (invoke_all fns cs a' w')). P x)"
      using Cons.IH [of a' w'] Cons.prems(1) by simp
    with returns Cons.prems(2) show ?thesis
      by (simp add: invoke_all_Cons_None)
  next
    case (raises e a' w')
    have "P a'" using keep_c [OF Cons.prems(2), of w] raises by simp
    with raises Cons.prems(2) show ?thesis
      by (simp add: invoke_all_Cons_Some args_after_def calls_def)
  qed
qed


lemma invoke_all_append:
  "invoke_all fns pre a w = (tr, None, a1, w1) \<Longrightarrow>
   invoke_all fns (pre @ post) a w =
     (tr @ calls (invoke_all fns post a1 w1), snd (invoke_all fns post a1 w1))"
proof (induction pre arbitrary: a w tr)
  case Nil
  then show ?case by (simp add: calls_def)
next
  case (Cons d pre)
  show ?case
  proof (cases rule: step_cases [of fns d a w])
    case (returns a' w')
    obtain tr' where tr': "invoke_all fns pre a' w' = (tr', None, a1, w1)"
      and tr: "tr = (d, source a, a) # tr'"
      using Cons.prems returns by (auto simp: invoke_all.simps(2) split: prod.splits)
    from Cons.IH [OF tr'] returns tr show ?thesis
      by (simp add: invoke_all.simps(2))
  next
    case (raises e' a' w')
    then show ?thesis using Cons.prems by (simp add: invoke_all.simps(2))
  qed
qed



section \<open>Properties of the dispatch\<close>







text \<open>
  C3, as the claim states it, fails: with the subscribers \<open>[10, 20]\<close> registered for
  \<^verbatim>\<open>"save"\<close>, the first sets \<^verbatim>\<open>cancel = True\<close>, the second is invoked with the
  flag set and assigns \<^verbatim>\<open>cancel = False\<close>, and the flag is false when
  \<^verbatim>\<open>trigger\<close> returns.
\<close>

theorem trigger_cancel_reset:
  "cancel (passed_args (calls (trigger handlers (on ''save'' 20 (on ''save'' 10 Events_init))
     ''save'' (CancelEventArgs_init (PyRef 9)) 0) ! 1)) \<and>
   raised (trigger handlers (on ''save'' 20 (on ''save'' 10 Events_init))
     ''save'' (CancelEventArgs_init (PyRef 9)) 0) = None \<and>
   \<not> cancel (args_after (trigger handlers (on ''save'' 20 (on ''save'' 10 Events_init))
     ''save'' (CancelEventArgs_init (PyRef 9)) 0))"
  by (simp add: trigger_def subscribers_def on_def Events_init_def invoke_all.simps(2)
      handlers_def sets_cancel_def clears_cancel_def calls_def raised_def args_after_def
      passed_args_def cancel_def set_cancel_def set_event_name_def source_def
      CancelEventArgs_init_def)

text \<open>
  C3, amended. \<^verbatim>\<open>trigger\<close> itself never writes the \<^verbatim>\<open>cancel\<close> flag. Once the
  call of a subscriber leaves \<^verbatim>\<open>cancel\<close> true on the args object (the subscribers
  registered before it having returned; the subscriber may be the last or the only one,
  and its call may return or raise), and the subscribers registered after it all leave
  a set flag set, the flag is true when every later subscriber of that dispatch is
  invoked and it is true on the args object after the dispatch, so when
  \<^verbatim>\<open>trigger\<close> returns.
\<close>

theorem trigger_cancel_stays_set:
  fixes a :: "'b CancelEventArgs_scheme"
  assumes "r = trigger fns ev n a w"
    and "i < length (subscribers ev n)"
    and "invoke_all fns (take i (subscribers ev n)) (set_event_name n a) w = (tr, None, a1, w1)"
    and "cancel (fst (snd (fns (subscribers ev n ! i) (source a1) a1 w1)))"
    and "list_all (\<lambda>c. keeps_cancel (fns c)) (drop (Suc i) (subscribers ev n))"
  shows "cancel (args_after r) \<and>
         (\<forall>j. i < j \<and> j < length (calls r) \<longrightarrow> cancel (passed_args (calls r ! j))) \<and>
         cancel (set_event_name n a) = cancel a"
proof -
  let ?subs = "subscribers ev n"
  let ?c = "?subs ! i"
  let ?post = "drop (Suc i) ?subs"
  have split: "?subs = take i ?subs @ ?c # ?post"
    using assms(2) by (simp add: id_take_nth_drop)
  have "map fst (calls (invoke_all fns (take i ?subs) (set_event_name n a) w)) = take i ?subs"
    by (rule invoke_all_returns) (simp add: assms(3) raised_def)
  then have "map fst tr = take i ?subs" by (simp add: assms(3) calls_def)
  then have "length (map fst tr) = length (take i ?subs)" by simp
  then have len: "length tr = i" using assms(2) by simp
  have "r = invoke_all fns (take i ?subs @ ?c # ?post) (set_event_name n a) w"
    using assms(1) split by (simp add: trigger_def)
  then have r: "r = (tr @ calls (invoke_all fns (?c # ?post) a1 w1),
                     snd (invoke_all fns (?c # ?post) a1 w1))"
    using invoke_all_append [OF assms(3), of "?c # ?post"] by simp
  have keep: "\<And>d s x v. d \<in> set ?post \<Longrightarrow> cancel x \<Longrightarrow> cancel (fst (snd (fns d s x v)))"
    using assms(5) by (auto simp: list_all_iff keeps_cancel_def)
  have tail: "cancel (args_after (invoke_all fns (?c # ?post) a1 w1)) \<and>
      (\<exists>rest. calls (invoke_all fns (?c # ?post) a1 w1) = (?c, source a1, a1) # rest \<and>
         (\<forall>(d, s, x) \<in> set rest. cancel x))"
  proof (cases rule: step_cases [of fns ?c a1 w1])
    case (returns a' w')
    with assms(4) have "cancel a'" by simp
    from invoke_all_invariant [of ?post cancel fns a' w', OF keep this] returns
    show ?thesis by (simp add: invoke_all_Cons_None)
  next
    case (raises e a' w')
    with assms(4) have "cancel a'" by simp
    with raises show ?thesis by (simp add: invoke_all_Cons_Some args_after_def calls_def)
  qed
  then obtain rest where rest: "calls (invoke_all fns (?c # ?post) a1 w1) = (?c, source a1, a1) # rest"
    and all: "\<forall>(d, s, x) \<in> set rest. cancel x"
    and after: "cancel (args_after (invoke_all fns (?c # ?post) a1 w1))"
    by blast
  have calls_r: "calls r = tr @ (?c, source a1, a1) # rest"
    using r rest by (simp add: calls_def)
  have after_r: "cancel (args_after r)"
    using r after by (simp add: args_after_def)
  have later: "cancel (passed_args (calls r ! j))" if ij: "i < j" and jl: "j < length (calls r)" for j
  proof -
    from ij jl len have k: "j - Suc i < length rest" by (simp add: calls_r)
    from ij len have "calls r ! j = rest ! (j - Suc i)"
      by (simp add: calls_r nth_append nth_Cons')
    with all nth_mem [OF k] show ?thesis by (auto simp: passed_args_def)
  qed
  have "cancel (set_event_name n a) = cancel a"
    by (simp add: cancel_def set_event_name_def)
  with after_r later show ?thesis by blast
qed

theorem trigger_cancel_stays_set_witness:
  "(0::nat) < length (subscribers (on ''save'' 10 Events_init) ''save'') \<and>
   invoke_all handlers (take 0 (subscribers (on ''save'' 10 Events_init) ''save''))
     (set_event_name ''save'' (set_event_data (PyInt 5) (CancelEventArgs_init (PyRef 9)))) 0 =
     ([], None,
      set_event_name ''save'' (set_event_data (PyInt 5) (CancelEventArgs_init (PyRef 9))), 0) \<and>
   cancel (fst (snd (handlers (subscribers (on ''save'' 10 Events_init) ''save'' ! 0)
     (source (set_event_name ''save'' (set_event_data (PyInt 5) (CancelEventArgs_init (PyRef 9)))))
     (set_event_name ''save'' (set_event_data (PyInt 5) (CancelEventArgs_init (PyRef 9))))
     (0::nat)))) \<and>
   list_all (\<lambda>c. keeps_cancel
      (handlers c :: pyval \<Rightarrow> CancelEventArgs \<Rightarrow> nat \<Rightarrow> error option \<times> CancelEventArgs \<times> nat))
      (drop (Suc 0) (subscribers (on ''save'' 10 Events_init) ''save'')) \<and>
   \<not> cancel (set_event_data (PyInt 5) (CancelEventArgs_init (PyRef 9))) \<and>
   raised (trigger handlers (on ''save'' 10 Events_init) ''save''
     (set_event_data (PyInt 5) (CancelEventArgs_init (PyRef 9))) 0) = None \<and>
   cancel (args_after (trigger handlers (on ''save'' 10 Events_init) ''save''
     (set_event_data (PyInt 5) (CancelEventArgs_init (PyRef 9))) 0)) \<and>
   (1::nat) < length (subscribers (on ''open'' 7 (on ''open'' 10 Events_init)) ''open'') \<and>
   invoke_all handlers (take 0 (subscribers (on ''open'' 7 (on ''open'' 10 Events_init)) ''open''))
     (set_event_name ''open'' (CancelEventArgs_init (PyRef 9))) 0 =
     ([], None, set_event_name ''open'' (CancelEventArgs_init (PyRef 9)), 0) \<and>
   list_all (\<lambda>c. keeps_cancel
      (handlers c :: pyval \<Rightarrow> CancelEventArgs \<Rightarrow> nat \<Rightarrow> error option \<times> CancelEventArgs \<times> nat))
      (drop (Suc 0) (subscribers (on ''open'' 7 (on ''open'' 10 Events_init)) ''open'')) \<and>
   length (calls (trigger handlers (on ''open'' 7 (on ''open'' 10 Events_init)) ''open''
     (CancelEventArgs_init (PyRef 9)) 0)) = 2 \<and>
   cancel (passed_args (calls (trigger handlers (on ''open'' 7 (on ''open'' 10 Events_init))
     ''open'' (CancelEventArgs_init (PyRef 9)) 0) ! 1)) \<and>
   cancel (args_after (trigger handlers (on ''open'' 7 (on ''open'' 10 Events_init)) ''open''
     (CancelEventArgs_init (PyRef 9)) 0))"
proof -
  let ?ev = "on ''save'' 10 Events_init"
  let ?a = "set_event_data (PyInt 5) (CancelEventArgs_init (PyRef 9))"
  let ?a1 = "set_event_name ''save'' ?a"
  let ?r = "trigger handlers ?ev ''save'' ?a (0::nat)"
  have subs: "subscribers ?ev ''save'' = [10]"
    by (simp add: subscribers_def on_def Events_init_def)
  have i: "(0::nat) < length (subscribers ?ev ''save'')" unfolding subs by simp
  have pre: "invoke_all handlers (take 0 (subscribers ?ev ''save'')) ?a1 0 = ([], None, ?a1, 0)"
    by simp
  have sets: "cancel (fst (snd (handlers (subscribers ?ev ''save'' ! 0) (source ?a1) ?a1 (0::nat))))"
    unfolding subs by (simp add: handlers_def sets_cancel_def cancel_def set_cancel_def)
  have keep: "list_all (\<lambda>c. keeps_cancel
      (handlers c :: pyval \<Rightarrow> CancelEventArgs \<Rightarrow> nat \<Rightarrow> error option \<times> CancelEventArgs \<times> nat))
      (drop (Suc 0) (subscribers ?ev ''save''))"
    unfolding subs by simp
  have before: "\<not> cancel ?a"
    by (simp add: cancel_def set_event_data_def CancelEventArgs_init_def)
  have ret: "raised ?r = None"
    unfolding trigger_def subs
    by (simp add: invoke_all.simps(2) handlers_def sets_cancel_def raised_def)
  from trigger_cancel_stays_set [OF refl i pre sets keep]
  have after: "cancel (args_after ?r)" by blast
  let ?ev2 = "on ''open'' 7 (on ''open'' 10 Events_init)"
  let ?b = "CancelEventArgs_init (PyRef 9)"
  let ?b1 = "set_event_name ''open'' ?b"
  let ?r2 = "trigger handlers ?ev2 ''open'' ?b (0::nat)"
  have subs2: "subscribers ?ev2 ''open'' = [10, 7]"
    by (simp add: subscribers_def on_def Events_init_def)
  have i2: "(0::nat) < length (subscribers ?ev2 ''open'')" unfolding subs2 by simp
  have l2: "(1::nat) < length (subscribers ?ev2 ''open'')" unfolding subs2 by simp
  have pre2: "invoke_all handlers (take 0 (subscribers ?ev2 ''open'')) ?b1 0 = ([], None, ?b1, 0)"
    by simp
  have sets2: "cancel (fst (snd (handlers (subscribers ?ev2 ''open'' ! 0) (source ?b1) ?b1 (0::nat))))"
    unfolding subs2 by (simp add: handlers_def sets_cancel_def cancel_def set_cancel_def)
  have keep2: "list_all (\<lambda>c. keeps_cancel
      (handlers c :: pyval \<Rightarrow> CancelEventArgs \<Rightarrow> nat \<Rightarrow> error option \<times> CancelEventArgs \<times> nat))
      (drop (Suc 0) (subscribers ?ev2 ''open''))"
    unfolding subs2 by (simp add: keeps_cancel_def handlers_def does_nothing_def)
  have len2: "length (calls ?r2) = 2"
    unfolding trigger_def subs2
    by (simp add: invoke_all.simps(2) handlers_def sets_cancel_def does_nothing_def calls_def)
  note th2 = trigger_cancel_stays_set [OF refl i2 pre2 sets2 keep2]
  from th2 have after2: "cancel (args_after ?r2)" by blast
  from th2 have "(0::nat) < 1 \<and> 1 < length (calls ?r2) \<longrightarrow> cancel (passed_args (calls ?r2 ! 1))"
    by blast
  with len2 have seen2: "cancel (passed_args (calls ?r2 ! 1))" by simp
  from i pre sets keep before ret after l2 pre2 keep2 len2 seen2 after2 show ?thesis by blast
qed

text \<open>
  C4. When the subscribers registered before some subscriber \<open>c\<close> have returned and
  the call of \<open>c\<close> raises an exception, that exception comes out of \<^verbatim>\<open>trigger\<close>,
  the call of \<open>c\<close> is the last call of the dispatch, and the subscribers registered
  after \<open>c\<close> are not invoked: the dispatch made the calls of the earlier subscribers
  and the call of \<open>c\<close>, and no other.
\<close>

theorem trigger_fail_fast:
  assumes "r = trigger fns ev n a w"
    and "subscribers ev n = pre @ c # post"
    and "invoke_all fns pre (set_event_name n a) w = (tr, None, a1, w1)"
    and "fns c (source a1) a1 w1 = (Some e, a2, w2)"
  shows "raised r = Some e \<and>
         calls r = tr @ [(c, source a1, a1)] \<and>
         map fst (calls r) = pre @ [c] \<and>
         length (calls r) = Suc (length pre) \<and>
         args_after r = a2 \<and> world_after r = w2"
proof -
  have "map fst (calls (invoke_all fns pre (set_event_name n a) w)) = pre"
    by (rule invoke_all_returns) (simp add: assms(3) raised_def)
  then have pre: "map fst tr = pre" by (simp add: assms(3) calls_def)
  then have "length (map fst tr) = length pre" by simp
  then have len: "length tr = length pre" by simp
  have "r = (tr @ [(c, source a1, a1)], Some e, a2, w2)"
    using invoke_all_raise [OF assms(3,4), of post] assms(1,2) by (simp add: trigger_def)
  with pre len show ?thesis
    by (simp add: raised_def calls_def args_after_def world_after_def)
qed

theorem trigger_fail_fast_witness:
  "subscribers (on ''close'' 10 (on ''close'' 30 (on ''close'' 7 Events_init))) ''close'' =
     [7] @ 30 # [10] \<and>
   invoke_all handlers [7] (set_event_name ''close'' (CancelEventArgs_init (PyRef 9))) 0 =
     ([(7, PyRef 9, set_event_name ''close'' (CancelEventArgs_init (PyRef 9)))], None,
      set_event_name ''close'' (CancelEventArgs_init (PyRef 9)), Suc 0) \<and>
   handlers 30 (source (set_event_name ''close'' (CancelEventArgs_init (PyRef 9))))
     (set_event_name ''close'' (CancelEventArgs_init (PyRef 9))) (Suc 0) =
     (Some (Raised ''ValueError'' []),
      set_event_name ''close'' (CancelEventArgs_init (PyRef 9)), Suc (Suc 0)) \<and>
   raised (trigger handlers (on ''close'' 10 (on ''close'' 30 (on ''close'' 7 Events_init)))
     ''close'' (CancelEventArgs_init (PyRef 9)) 0) = Some (Raised ''ValueError'' []) \<and>
   map fst (calls (trigger handlers
     (on ''close'' 10 (on ''close'' 30 (on ''close'' 7 Events_init)))
     ''close'' (CancelEventArgs_init (PyRef 9)) 0)) = [7, 30] \<and>
   \<not> cancel (args_after (trigger handlers
     (on ''close'' 10 (on ''close'' 30 (on ''close'' 7 Events_init)))
     ''close'' (CancelEventArgs_init (PyRef 9)) 0))"
proof -
  let ?ev = "on ''close'' 10 (on ''close'' 30 (on ''close'' 7 Events_init))"
  let ?a = "CancelEventArgs_init (PyRef 9)"
  let ?a1 = "set_event_name ''close'' ?a"
  let ?r = "trigger handlers ?ev ''close'' ?a (0::nat)"
  have subs: "subscribers ?ev ''close'' = [7] @ 30 # [10]"
    by (simp add: subscribers_def on_def Events_init_def)
  have pre: "invoke_all handlers [7] ?a1 0 = ([(7, PyRef 9, ?a1)], None, ?a1, Suc 0)"
    by (simp add: invoke_all.simps(2) handlers_def does_nothing_def source_def
        set_event_name_def CancelEventArgs_init_def)
  have c: "handlers 30 (source ?a1) ?a1 (Suc 0) =
      (Some (Raised ''ValueError'' []), ?a1, Suc (Suc 0))"
    by (simp add: handlers_def raises_ValueError_def)
  note th = trigger_fail_fast [OF refl subs pre c]
  from th have "raised ?r = Some (Raised ''ValueError'' [])" by blast
  moreover from th have "map fst (calls ?r) = [7] @ [30]" by blast
  then have "map fst (calls ?r) = [7, 30]" by simp
  moreover from th have "args_after ?r = ?a1" by blast
  then have "\<not> cancel (args_after ?r)"
    by (simp add: cancel_def set_event_name_def CancelEventArgs_init_def)
  ultimately show ?thesis using subs pre c by blast
qed

text \<open>
  C8. When no subscriber is registered for \<open>n\<close> (the name is not in the registry, or
  its list is empty), \<^verbatim>\<open>trigger(n, a)\<close> returns without an exception, makes no
  call, leaves the rest of the state as it was, and \<^verbatim>\<open>a.event_name\<close> is \<open>n\<close>
  afterwards: \<open>a\<close> is changed in its \<^verbatim>\<open>event_name\<close> only.
\<close>

theorem trigger_no_subscribers:
  assumes "subscribers ev n = []"
  shows "raised (trigger fns ev n a w) = None \<and>
         calls (trigger fns ev n a w) = [] \<and>
         event_name (args_after (trigger fns ev n a w)) = n \<and>
         args_after (trigger fns ev n a w) = set_event_name n a \<and>
         world_after (trigger fns ev n a w) = w"
  using assms
  by (simp add: trigger_def raised_def calls_def args_after_def world_after_def
      event_name_def set_event_name_def)

theorem trigger_no_subscribers_witness:
  "subscribers (on ''open'' 30 Events_init) ''save'' = [] \<and>
   raised (trigger handlers (on ''open'' 30 Events_init) ''save''
     (set_event_name ''draft'' (CancelEventArgs_init (PyRef 9))) 0) = None \<and>
   calls (trigger handlers (on ''open'' 30 Events_init) ''save''
     (set_event_name ''draft'' (CancelEventArgs_init (PyRef 9))) 0) = [] \<and>
   event_name (args_after (trigger handlers (on ''open'' 30 Events_init) ''save''
     (set_event_name ''draft'' (CancelEventArgs_init (PyRef 9))) 0)) = ''save'' \<and>
   world_after (trigger handlers (on ''open'' 30 Events_init) ''save''
     (set_event_name ''draft'' (CancelEventArgs_init (PyRef 9))) 0) = 0"
proof -
  have subs: "subscribers (on ''open'' 30 Events_init) ''save'' = []"
    by (simp add: subscribers_def on_def Events_init_def)
  from trigger_no_subscribers [OF subs, of handlers
      "set_event_name ''draft'' (CancelEventArgs_init (PyRef 9))" "0::nat"] subs
  show ?thesis by blast
qed




section \<open>Properties of CancelEventError\<close>

text \<open>
  C10, as the claim states it, fails: for an event named \<^verbatim>\<open>save\<close>, the second
  argument of \<^verbatim>\<open>CancelEventError(ea)\<close> is the string \<^verbatim>\<open>Event 'save' is canceled!\<close>
  itself and not its \<^verbatim>\<open>repr\<close>, which is that string in double quotes; only
  \<^verbatim>\<open>str()\<close> of the exception is the \<^verbatim>\<open>repr\<close>.
\<close>

theorem CancelEventError_args_1_not_repr:
  "args_1 (CancelEventError_init (set_event_name ''save'' (EventArgs_init (PyRef 9)))
     PyNone []) \<noteq>
   Inr (PyStr (str_repr (''Event '' @ [CHR 0x27] @ ''save'' @ [CHR 0x27] @
     '' is canceled!''))) \<and>
   args_1 (CancelEventError_init (set_event_name ''save'' (EventArgs_init (PyRef 9)))
     PyNone []) =
   Inr (PyStr (''Event '' @ [CHR 0x27] @ ''save'' @ [CHR 0x27] @ '' is canceled!'')) \<and>
   CancelEventError_str (\<lambda>r. []) (CancelEventError_init
     (set_event_name ''save'' (EventArgs_init (PyRef 9))) PyNone []) =
   Inr ([CHR 0x22] @ ''Event '' @ [CHR 0x27] @ ''save'' @ [CHR 0x27] @ '' is canceled!'' @
     [CHR 0x22])"
  by (simp add: args_1_def CancelEventError_init_def CancelEventError_str_def str_repr_def
      repr_char_def Let_def event_name_def set_event_name_def EventArgs_init_def)

text \<open>
  C10, amended. For every event object \<open>ea\<close>, \<^verbatim>\<open>CancelEventError(ea)\<close> with no
  explicit message (or with \<^verbatim>\<open>None\<close>) is an exception whose second argument is the
  string \<^verbatim>\<open>Event '<ea.event_name>' is canceled!\<close> itself and whose \<^verbatim>\<open>str()\<close> is
  the \<^verbatim>\<open>repr\<close> of that string. With an explicit message that is not \<^verbatim>\<open>None\<close>, the
  second argument is that message as it was passed and \<^verbatim>\<open>str()\<close> is its
  \<^verbatim>\<open>repr\<close>.
\<close>

theorem CancelEventError_message:
  "args_1 (CancelEventError_init ea PyNone extra) =
     Inr (PyStr (''Event '' @ [CHR 0x27] @ event_name ea @ [CHR 0x27] @ '' is canceled!'')) \<and>
   CancelEventError_str obj_repr (CancelEventError_init ea PyNone extra) =
     Inr (str_repr (''Event '' @ [CHR 0x27] @ event_name ea @ [CHR 0x27] @
       '' is canceled!'')) \<and>
   (message \<noteq> PyNone \<longrightarrow>
      args_1 (CancelEventError_init ea message extra) = Inr message \<and>
      CancelEventError_str obj_repr (CancelEventError_init ea message extra) =
        Inr (py_repr obj_repr message))"
  by (simp add: args_1_def CancelEventError_init_def CancelEventError_str_def)

theorem CancelEventError_message_witness:
  "PyStr ''stop'' \<noteq> PyNone \<and>
   args_1 (CancelEventError_init (set_event_name ''save'' (EventArgs_init (PyRef 9)))
     (PyStr ''stop'') [PyInt 3]) = Inr (PyStr ''stop'') \<and>
   CancelEventError_str (\<lambda>r. []) (CancelEventError_init
     (set_event_name ''save'' (EventArgs_init (PyRef 9))) (PyStr ''stop'') [PyInt 3]) =
     Inr ([CHR 0x27] @ ''stop'' @ [CHR 0x27])"
proof -
  have ne: "PyStr ''stop'' \<noteq> PyNone" by simp
  from CancelEventError_message [of "set_event_name ''save'' (EventArgs_init (PyRef 9))"
      "[PyInt 3]" "\<lambda>r. []" "PyStr ''stop''"] ne
  have "args_1 (CancelEventError_init (set_event_name ''save'' (EventArgs_init (PyRef 9)))
          (PyStr ''stop'') [PyInt 3]) = Inr (PyStr ''stop'')"
    and "CancelEventError_str (\<lambda>r. []) (CancelEventError_init
          (set_event_name ''save'' (EventArgs_init (PyRef 9))) (PyStr ''stop'') [PyInt 3]) =
          Inr (py_repr (\<lambda>r. []) (PyStr ''stop''))"
    by blast+
  moreover have "py_repr (\<lambda>r. []) (PyStr ''stop'') = [CHR 0x27] @ ''stop'' @ [CHR 0x27]"
    by (simp add: str_repr_def repr_char_def Let_def)
  ultimately show ?thesis using ne by simp
qed

end
